theory Spec2Isabelle
  imports Complex_Main "HOL-Library.Char_ord" "HOL-Library.List_Lexorder"
begin

section \<open>Image packing onto PDF pages: the starter script\<close>

text \<open>
  A shallow embedding of \<^verbatim>\<open>task_1_starter_code.py\<close>. The script reads a
  directory of images, crops each image to its visible area, scales it to a width of two
  inches and draws it on a sequence of pages, row by row.

  Conventions of the embedding:
  \<^item> Python floats are modelled as exact reals in \<open>generate_pdf\<close>. A second
    embedding, \<open>generate_pdf_fl\<close>, passes the result of every arithmetic operation
    through a rounding function; the margins are proved for it.
  \<^item> The file system is a value: a directory listing and a partial function from paths
    to decoded images.
  \<^item> Exceptions are values of type \<open>py_error\<close>; a function that may raise returns
    \<open>py_error + 'a\<close>, with \<open>Inl\<close> for the exception.
  \<^item> The canvas is a value: the finished pages, the content of the page being drawn and
    a flag that tells whether the document was saved.
  \<^item> Console output (\<^verbatim>\<open>print\<close>) is not modelled.
  \<^item> Of the library calls, \<^verbatim>\<open>Image.open\<close>, \<^verbatim>\<open>getchannel\<close> and \<^verbatim>\<open>crop\<close> may
    raise, the last two also because the pixel data of an opened file cannot be decoded;
    \<^verbatim>\<open>os.listdir\<close> and the canvas operations are taken to succeed.
\<close>

subsection \<open>Units, page sizes and configuration\<close>

text \<open>\<^verbatim>\<open>reportlab.lib.units\<close>: one inch is 72 points.\<close>

definition inch :: real where
  "inch = 72"

definition cm :: real where
  "cm = inch / 2.54"

definition mm :: real where
  "mm = cm * 0.1"

text \<open>\<^verbatim>\<open>reportlab.lib.pagesizes\<close>.\<close>

definition A4 :: "real \<times> real" where
  "A4 = (210 * mm, 297 * mm)"

definition portrait :: "real \<times> real \<Rightarrow> real \<times> real" where
  "portrait pagesize = (case pagesize of (a, b) \<Rightarrow> if a \<ge> b then (b, a) else (a, b))"

definition INPUT_DIR :: string where
  "INPUT_DIR = ''input_images''"

definition OUTPUT_PDF :: string where
  "OUTPUT_PDF = ''output.pdf''"

definition PAGE_SIZE :: "real \<times> real" where
  "PAGE_SIZE = portrait A4"

subsection \<open>Exceptions\<close>

datatype py_error = OSError | ValueError | ZeroDivisionError

subsection \<open>Images (PIL)\<close>

text \<open>
  An image object, as far as the script observes it: the mode, the size, and whether
  the key \<^verbatim>\<open>'transparency'\<close> is in \<^verbatim>\<open>image.info\<close>.
  A decoded file has pixel data as well; the script reads it only through
  \<^verbatim>\<open>getchannel('A').getbbox()\<close>, so the pixel data of an image with an alpha band
  is represented by that answer: \<open>None\<close> when every pixel is fully transparent,
  otherwise the box \<open>(left, upper, right, lower)\<close> around the visible pixels.

  \<^verbatim>\<open>Image.open\<close> reads the header of a file only; the pixel data is decoded when it
  is first needed (\<^verbatim>\<open>load\<close>). \<open>pixels_ok\<close> tells whether that decoding succeeds:
  it is false for a file whose header is intact and whose data is truncated or corrupt,
  and then \<^verbatim>\<open>load\<close> raises OSError.
\<close>

type_synonym box = "nat \<times> nat \<times> nat \<times> nat"

record image =
  mode :: string
  width :: nat
  height :: nat
  info_transparency :: bool

record decoded = image +
  alpha_bbox :: "box option"
  pixels_ok :: bool

text \<open>\<^verbatim>\<open>Image.new(mode, size)\<close>.\<close>

definition Image_new :: "string \<Rightarrow> nat \<times> nat \<Rightarrow> image" where
  "Image_new m sz = \<lparr>mode = m, width = fst sz, height = snd sz, info_transparency = False\<rparr>"

text \<open>
  \<^verbatim>\<open>Image.getbands()\<close>: the names of the bands of a mode, for the modes of PIL. Of
  the modes the script sends to \<^verbatim>\<open>getchannel\<close>, RGBA and LA have a band A, and P
  (palette) has the single band P, also when the palette carries transparency.
\<close>

definition getbands :: "string \<Rightarrow> string list" where
  "getbands m =
     (if m = ''RGBA'' then [''R'', ''G'', ''B'', ''A'']
      else if m = ''RGB'' then [''R'', ''G'', ''B'']
      else if m = ''RGBX'' then [''R'', ''G'', ''B'', ''X'']
      else if m = ''RGBa'' then [''R'', ''G'', ''B'', ''a'']
      else if m = ''LA'' then [''L'', ''A'']
      else if m = ''La'' then [''L'', ''a'']
      else if m = ''PA'' then [''P'', ''A'']
      else if m = ''CMYK'' then [''C'', ''M'', ''Y'', ''K'']
      else if m = ''YCbCr'' then [''Y'', ''Cb'', ''Cr'']
      else if m = ''LAB'' then [''L'', ''A'', ''B'']
      else if m = ''HSV'' then [''H'', ''S'', ''V'']
      else if take 2 m = ''I;'' then [''I'']
      else [m])"

text \<open>
  \<^verbatim>\<open>image.getchannel(channel)\<close> loads the pixel data, which raises OSError when the
  data cannot be decoded, and then raises ValueError when the image has no band of that
  name. The band it returns is represented by the answer of its \<^verbatim>\<open>getbbox()\<close>.
\<close>

definition getchannel :: "decoded \<Rightarrow> string \<Rightarrow> py_error + box option" where
  "getchannel im channel =
     (if \<not> pixels_ok im then Inl OSError
      else if channel \<in> set (getbands (mode im)) then Inr (alpha_bbox im)
      else Inl ValueError)"

text \<open>
  \<^verbatim>\<open>image.crop(box)\<close> raises ValueError when right is less than left or lower is less
  than upper; then it loads the pixel data, which raises OSError when the data cannot be
  decoded; otherwise the result has the size of the box, the mode and the info of the
  source.
\<close>

definition crop :: "decoded \<Rightarrow> box \<Rightarrow> py_error + image" where
  "crop im bx =
     (case bx of (left, upper, right, lower) \<Rightarrow>
        if right < left \<or> lower < upper then Inl ValueError
        else if \<not> pixels_ok im then Inl OSError
        else Inr \<lparr>mode = mode im, width = right - left, height = lower - upper,
                  info_transparency = info_transparency im\<rparr>)"

text \<open>
  \<^verbatim>\<open>image.convert(mode)\<close>, of an image whose pixel data is loaded. A conversion to
  a mode with an alpha band moves the transparency of the info into that band and
  removes the key from the info.
\<close>

definition convert :: "image \<Rightarrow> string \<Rightarrow> image" where
  "convert im m =
     im\<lparr>mode := m,
        info_transparency := (if ''A'' \<in> set (getbands m) then False
                              else info_transparency im)\<rparr>"

text \<open>
  What PIL guarantees of an image that \<^verbatim>\<open>Image.open\<close> returns: its size is positive,
  and the bounding box of its alpha band, when there is one, is a non-empty box inside
  the image.
\<close>

definition wf_decoded :: "decoded \<Rightarrow> bool" where
  "wf_decoded im \<longleftrightarrow>
     0 < width im \<and> 0 < height im \<and>
     (case alpha_bbox im of
        None \<Rightarrow> True
      | Some (left, upper, right, lower) \<Rightarrow>
          left < right \<and> right \<le> width im \<and> upper < lower \<and> lower \<le> height im)"

subsection \<open>The file system\<close>

text \<open>
  \<open>listdir fs d\<close> is \<^verbatim>\<open>os.listdir(d)\<close>, in the order the operating system gives.
  \<open>Image_open fs p\<close> is \<^verbatim>\<open>Image.open(p)\<close>: \<open>None\<close> when it raises.
\<close>

record filesystem =
  listdir :: "string \<Rightarrow> string list"
  Image_open :: "string \<Rightarrow> decoded option"

text \<open>\<^verbatim>\<open>os.path.join(a, b)\<close> on POSIX.\<close>

definition os_path_join :: "string \<Rightarrow> string \<Rightarrow> string" where
  "os_path_join a b =
     (if b \<noteq> [] \<and> hd b = CHR ''/'' then b
      else if a = [] \<or> last a = CHR ''/'' then a @ b
      else a @ ''/'' @ b)"

subsection \<open>Strings\<close>

text \<open>\<^verbatim>\<open>str.lower\<close> on ASCII letters; other characters are left as they are.\<close>

definition lower_char :: "char \<Rightarrow> char" where
  "lower_char c =
     (if CHR ''A'' \<le> c \<and> c \<le> CHR ''Z'' then char_of (of_char c + (32::nat)) else c)"

definition lower :: "string \<Rightarrow> string" where
  "lower s = map lower_char s"

definition endswith :: "string \<Rightarrow> string \<Rightarrow> bool" where
  "endswith s suffix =
     (length suffix \<le> length s \<and> drop (length s - length suffix) s = suffix)"

text \<open>\<^verbatim>\<open>s.endswith((t1, t2, ...))\<close>: one of the suffixes matches.\<close>

definition endswith_any :: "string \<Rightarrow> string list \<Rightarrow> bool" where
  "endswith_any s suffixes = list_ex (endswith s) suffixes"

subsection \<open>Image preprocessing\<close>

definition get_bounding_box_of_visible_area :: "decoded \<Rightarrow> py_error + box" where
  "get_bounding_box_of_visible_area im =
     (if mode im \<in> {''RGBA'', ''LA''} \<or> (mode im = ''P'' \<and> info_transparency im)
      then
        (case getchannel im ''A'' of
           Inl e \<Rightarrow> Inl e
         | Inr bbox \<Rightarrow>
             Inr (case bbox of Some b \<Rightarrow> b | None \<Rightarrow> (0, 0, width im, height im)))
      else Inr (0, 0, width im, height im))"

definition preprocess_image :: "filesystem \<Rightarrow> string \<Rightarrow> py_error + image" where
  "preprocess_image fs image_path =
     (case Image_open fs image_path of
        None \<Rightarrow> Inr (Image_new ''RGB'' (1, 1))
      | Some im \<Rightarrow>
          (case get_bounding_box_of_visible_area im of
             Inl e \<Rightarrow> Inl e
           | Inr bbox \<Rightarrow>
               (case crop im bbox of
                  Inl e \<Rightarrow> Inl e
                | Inr cropped_image \<Rightarrow>
                    Inr (if mode cropped_image \<notin> {''RGB'', ''RGBA'', ''P''}
                         then convert cropped_image ''RGBA''
                         else cropped_image))))"

subsection \<open>The canvas (reportlab)\<close>

text \<open>
  A placement is one call of \<^verbatim>\<open>drawImage\<close>: the image, the lower left corner
  \<open>(pl_x, pl_y)\<close> in points from the lower left corner of the page, and the drawn
  size. \<open>pl_src\<close> is the name of the file being processed when the call is made; the
  canvas does not store it, the model records it so that a placement can be traced to
  its file.
\<close>

record placement =
  pl_src :: string
  pl_image :: image
  pl_x :: real
  pl_y :: real
  pl_width :: real
  pl_height :: real

datatype op = DrawString real real string | DrawImage placement

text \<open>
  \<open>pages\<close> are the pages already emitted, \<open>code\<close> is the content of the page being
  drawn. \<^verbatim>\<open>showPage\<close> emits the current page, empty or not, and starts the next;
  \<^verbatim>\<open>save\<close> emits the current page when it has content and writes the file.
\<close>

record canvas =
  filename :: string
  pagesize :: "real \<times> real"
  pages :: "op list list"
  code :: "op list"
  saved :: bool

definition Canvas :: "string \<Rightarrow> real \<times> real \<Rightarrow> canvas" where
  "Canvas path ps = \<lparr>filename = path, pagesize = ps, pages = [], code = [], saved = False\<rparr>"

definition drawString :: "canvas \<Rightarrow> real \<Rightarrow> real \<Rightarrow> string \<Rightarrow> canvas" where
  "drawString c x0 y0 s = c\<lparr>code := code c @ [DrawString x0 y0 s]\<rparr>"

definition drawImage :: "canvas \<Rightarrow> placement \<Rightarrow> canvas" where
  "drawImage c p = c\<lparr>code := code c @ [DrawImage p]\<rparr>"

definition showPage :: "canvas \<Rightarrow> canvas" where
  "showPage c = c\<lparr>pages := pages c @ [code c], code := []\<rparr>"

definition save :: "canvas \<Rightarrow> canvas" where
  "save c = (if code c \<noteq> [] then showPage c else c)\<lparr>saved := True\<rparr>"

subsection \<open>PDF generation\<close>

text \<open>The layout state of the loop: the cursor and the height of the current row.\<close>

record layout =
  current_x :: real
  current_y :: real
  max_row_height :: real

text \<open>Step 1 of \<^verbatim>\<open>generate_pdf\<close>: the image files of the directory, sorted by name.\<close>

definition image_files :: "filesystem \<Rightarrow> string \<Rightarrow> string list" where
  "image_files fs input_dir =
     sort (filter (\<lambda>f. endswith_any (lower f) [''.png'', ''.jpg'', ''.jpeg''])
             (listdir fs input_dir))"

text \<open>
  The placement block of the loop body, from the row check to the update of the state,
  for an image whose target size has been computed.
\<close>

definition place ::
  "real \<times> real \<Rightarrow> string \<Rightarrow> image \<Rightarrow> real \<Rightarrow> real \<Rightarrow> canvas \<times> layout \<Rightarrow> canvas \<times> layout"
where
  "place page_size fname img target_width target_height s =
     (case page_size of (page_width, page_height) \<Rightarrow>
      case s of (c, st) \<Rightarrow>
        let (c1, st1) =
          (if current_x st + target_width > page_width - inch then
             let y1 = current_y st - (max_row_height st + 0.2 * inch) in
             if y1 - target_height < inch
             then (showPage c,
                   \<lparr>current_x = inch, current_y = page_height - inch, max_row_height = 0\<rparr>)
             else (c, \<lparr>current_x = inch, current_y = y1, max_row_height = 0\<rparr>)
           else (c, st));
          c2 = drawImage c1
                 \<lparr>pl_src = fname, pl_image = img,
                  pl_x = current_x st1, pl_y = current_y st1 - target_height,
                  pl_width = target_width, pl_height = target_height\<rparr>
        in (c2, st1\<lparr>current_x := current_x st1 + (target_width + 0.2 * inch),
                    max_row_height := max (max_row_height st1) target_height\<rparr>))"

text \<open>
  The \<^verbatim>\<open>try\<close> block of the loop body for one file name. The exceptions modelled
  are the ones \<open>preprocess_image\<close> raises and the division by a zero width; both
  are raised before the state is changed.
\<close>

definition try_block ::
  "filesystem \<Rightarrow> string \<Rightarrow> real \<times> real \<Rightarrow> string \<Rightarrow> canvas \<times> layout
     \<Rightarrow> py_error + canvas \<times> layout"
where
  "try_block fs input_dir page_size fname s =
     (let image_path = os_path_join input_dir fname in
      case preprocess_image fs image_path of
        Inl e \<Rightarrow> Inl e
      | Inr img \<Rightarrow>
          let target_width = 2 * inch in
          if width img = 0 then Inl ZeroDivisionError
          else
            let target_height = real (height img) * target_width / real (width img)
            in Inr (place page_size fname img target_width target_height s))"

text \<open>The loop body: an exception of the block is caught and the file is skipped.\<close>

definition process_image ::
  "filesystem \<Rightarrow> string \<Rightarrow> real \<times> real \<Rightarrow> string \<Rightarrow> canvas \<times> layout \<Rightarrow> canvas \<times> layout"
where
  "process_image fs input_dir page_size fname s =
     (case try_block fs input_dir page_size fname s of
        Inl e \<Rightarrow> s
      | Inr s' \<Rightarrow> s')"

fun layout_loop ::
  "filesystem \<Rightarrow> string \<Rightarrow> real \<times> real \<Rightarrow> string list \<Rightarrow> canvas \<times> layout \<Rightarrow> canvas \<times> layout"
where
  "layout_loop fs input_dir page_size [] s = s"
| "layout_loop fs input_dir page_size (fname # rest) s =
     layout_loop fs input_dir page_size rest (process_image fs input_dir page_size fname s)"

text \<open>\<^verbatim>\<open>generate_pdf\<close> returns nothing; the model returns the canvas it leaves.\<close>

definition generate_pdf :: "filesystem \<Rightarrow> string \<Rightarrow> string \<Rightarrow> real \<times> real \<Rightarrow> canvas" where
  "generate_pdf fs input_dir output_pdf_path page_size =
     (case page_size of (page_width, page_height) \<Rightarrow>
      let c = Canvas output_pdf_path page_size;
          files = image_files fs input_dir
      in if files = [] then
           save (drawString c inch (page_height - inch) ''No images found.'')
         else
           save (fst (layout_loop fs input_dir page_size files
                        (c, \<lparr>current_x = inch, current_y = page_height - inch,
                             max_row_height = 0\<rparr>))))"

subsection \<open>PDF generation with rounded arithmetic\<close>

text \<open>
  The arithmetic of \<open>generate_pdf\<close> once more, with the result of every operation on
  floats passed through a rounding function \<open>rnd\<close>: the literal \<^verbatim>\<open>0.2\<close>, the
  products, sums, differences and the quotient. The integers of the image size convert
  to floats exactly. With the identity for \<open>rnd\<close> these are the definitions above.
\<close>

definition place_fl ::
  "(real \<Rightarrow> real) \<Rightarrow> real \<times> real \<Rightarrow> string \<Rightarrow> image \<Rightarrow> real \<Rightarrow> real
     \<Rightarrow> canvas \<times> layout \<Rightarrow> canvas \<times> layout"
where
  "place_fl rnd page_size fname img target_width target_height s =
     (case page_size of (page_width, page_height) \<Rightarrow>
      case s of (c, st) \<Rightarrow>
        let (c1, st1) =
          (if rnd (current_x st + target_width) > rnd (page_width - inch) then
             let y1 = rnd (current_y st - rnd (max_row_height st + rnd (rnd 0.2 * inch))) in
             if rnd (y1 - target_height) < inch
             then (showPage c,
                   \<lparr>current_x = inch, current_y = rnd (page_height - inch),
                    max_row_height = 0\<rparr>)
             else (c, \<lparr>current_x = inch, current_y = y1, max_row_height = 0\<rparr>)
           else (c, st));
          c2 = drawImage c1
                 \<lparr>pl_src = fname, pl_image = img,
                  pl_x = current_x st1, pl_y = rnd (current_y st1 - target_height),
                  pl_width = target_width, pl_height = target_height\<rparr>
        in (c2, st1\<lparr>current_x :=
                      rnd (current_x st1 + rnd (target_width + rnd (rnd 0.2 * inch))),
                    max_row_height := max (max_row_height st1) target_height\<rparr>))"

definition try_block_fl ::
  "(real \<Rightarrow> real) \<Rightarrow> filesystem \<Rightarrow> string \<Rightarrow> real \<times> real \<Rightarrow> string \<Rightarrow> canvas \<times> layout
     \<Rightarrow> py_error + canvas \<times> layout"
where
  "try_block_fl rnd fs input_dir page_size fname s =
     (let image_path = os_path_join input_dir fname in
      case preprocess_image fs image_path of
        Inl e \<Rightarrow> Inl e
      | Inr img \<Rightarrow>
          let target_width = rnd (2 * inch) in
          if width img = 0 then Inl ZeroDivisionError
          else
            let target_height = rnd (rnd (real (height img) * target_width) / real (width img))
            in Inr (place_fl rnd page_size fname img target_width target_height s))"

definition process_image_fl ::
  "(real \<Rightarrow> real) \<Rightarrow> filesystem \<Rightarrow> string \<Rightarrow> real \<times> real \<Rightarrow> string \<Rightarrow> canvas \<times> layout
     \<Rightarrow> canvas \<times> layout"
where
  "process_image_fl rnd fs input_dir page_size fname s =
     (case try_block_fl rnd fs input_dir page_size fname s of
        Inl e \<Rightarrow> s
      | Inr s' \<Rightarrow> s')"

fun layout_loop_fl ::
  "(real \<Rightarrow> real) \<Rightarrow> filesystem \<Rightarrow> string \<Rightarrow> real \<times> real \<Rightarrow> string list \<Rightarrow> canvas \<times> layout
     \<Rightarrow> canvas \<times> layout"
where
  "layout_loop_fl rnd fs input_dir page_size [] s = s"
| "layout_loop_fl rnd fs input_dir page_size (fname # rest) s =
     layout_loop_fl rnd fs input_dir page_size rest
       (process_image_fl rnd fs input_dir page_size fname s)"

definition generate_pdf_fl ::
  "(real \<Rightarrow> real) \<Rightarrow> filesystem \<Rightarrow> string \<Rightarrow> string \<Rightarrow> real \<times> real \<Rightarrow> canvas"
where
  "generate_pdf_fl rnd fs input_dir output_pdf_path page_size =
     (case page_size of (page_width, page_height) \<Rightarrow>
      let c = Canvas output_pdf_path page_size;
          files = image_files fs input_dir
      in if files = [] then
           save (drawString c inch (rnd (page_height - inch)) ''No images found.'')
         else
           save (fst (layout_loop_fl rnd fs input_dir page_size files
                        (c, \<lparr>current_x = inch, current_y = rnd (page_height - inch),
                             max_row_height = 0\<rparr>))))"

text \<open>
  What is used of the rounding: it is monotone, and 0, 72 and 144 are floats, so it
  leaves them as they are. Rounding to the nearest double has these properties.
\<close>

definition rounding :: "(real \<Rightarrow> real) \<Rightarrow> bool" where
  "rounding rnd \<longleftrightarrow>
     (\<forall>a b. a \<le> b \<longrightarrow> rnd a \<le> rnd b) \<and>
     rnd 0 = 0 \<and> rnd inch = inch \<and> rnd (2 * inch) = 2 * inch"

text \<open>
  A coarse rounding for examples: to the nearest integer below 512, to the nearest even
  integer from 512 on, as a float of ten bits does.
\<close>

definition coarse :: "real \<Rightarrow> real" where
  "coarse a =
     (if a < 512 then of_int \<lfloor>a + 1 / 2\<rfloor> else 2 * of_int \<lfloor>a / 2 + 1 / 2\<rfloor>)"

subsection \<open>Reading the result\<close>

fun page_placements :: "op list \<Rightarrow> placement list" where
  "page_placements [] = []"
| "page_placements (DrawImage p # ops) = p # page_placements ops"
| "page_placements (DrawString x0 y0 s # ops) = page_placements ops"

text \<open>All placements of a document, in the order they were drawn.\<close>

definition placements :: "canvas \<Rightarrow> placement list" where
  "placements c = concat (map page_placements (pages c)) @ page_placements (code c)"

definition page_count :: "canvas \<Rightarrow> nat" where
  "page_count c = length (pages c)"

text \<open>
  The files the loop draws: those whose \<^verbatim>\<open>try\<close> block raises nothing, and the
  height each of them is drawn with.
\<close>

definition drawn :: "filesystem \<Rightarrow> string \<Rightarrow> string \<Rightarrow> bool" where
  "drawn fs input_dir fname =
     (case preprocess_image fs (os_path_join input_dir fname) of
        Inl e \<Rightarrow> False
      | Inr img \<Rightarrow> width img \<noteq> 0)"

definition scaled_height :: "filesystem \<Rightarrow> string \<Rightarrow> string \<Rightarrow> real" where
  "scaled_height fs input_dir fname =
     (case preprocess_image fs (os_path_join input_dir fname) of
        Inl e \<Rightarrow> 0
      | Inr img \<Rightarrow> real (height img) * (2 * inch) / real (width img))"


text \<open>The heights of the drawn files in the rounded arithmetic.\<close>

definition scaled_height_fl :: "(real \<Rightarrow> real) \<Rightarrow> filesystem \<Rightarrow> string \<Rightarrow> string \<Rightarrow> real" where
  "scaled_height_fl rnd fs input_dir fname =
     (case preprocess_image fs (os_path_join input_dir fname) of
        Inl e \<Rightarrow> 0
      | Inr img \<Rightarrow> rnd (rnd (real (height img) * rnd (2 * inch)) / real (width img)))"

definition target_heights_fl ::
  "(real \<Rightarrow> real) \<Rightarrow> filesystem \<Rightarrow> string \<Rightarrow> string list \<Rightarrow> real list"
where
  "target_heights_fl rnd fs input_dir files =
     map (scaled_height_fl rnd fs input_dir) (filter (drawn fs input_dir) files)"

text \<open>
  The size of the visible area of an opened image, as the docstrings describe it: the
  box around the pixels that are not transparent when the image has an alpha band (modes
  RGBA and LA), the whole image otherwise or when no such pixel exists.
\<close>

definition visible_size :: "decoded \<Rightarrow> nat \<times> nat" where
  "visible_size im =
     (if mode im \<in> {''RGBA'', ''LA''} then
        (case alpha_bbox im of
           Some (x0, y0, x1, y1) \<Rightarrow> (x1 - x0, y1 - y0)
         | None \<Rightarrow> (width im, height im))
      else (width im, height im))"

subsection \<open>Geometry of placements\<close>

text \<open>
  Two placements intersect when their closed rectangles share a point; rectangles that
  only touch count as intersecting.
\<close>

definition intersects :: "placement \<Rightarrow> placement \<Rightarrow> bool" where
  "intersects p q \<longleftrightarrow>
     pl_x p \<le> pl_x q + pl_width q \<and> pl_x q \<le> pl_x p + pl_width p \<and>
     pl_y p \<le> pl_y q + pl_height q \<and> pl_y q \<le> pl_y p + pl_height p"

definition disjoint_list :: "placement list \<Rightarrow> bool" where
  "disjoint_list ps = sorted_wrt (\<lambda>p q. \<not> intersects p q) ps"


subsection \<open>Invariants of the loop\<close>

text \<open>
  The placements of the page being drawn: each lies in the current row (its upper edge
  is the cursor's \<open>current_y\<close>, it ends left of \<open>current_x\<close> and is no taller than
  the row) or in a row above (its lower edge is above \<open>current_y\<close>).
\<close>

definition page_inv :: "layout \<Rightarrow> placement list \<Rightarrow> bool" where
  "page_inv st ps \<longleftrightarrow>
     0 \<le> max_row_height st \<and> disjoint_list ps \<and>
     (\<forall>p \<in> set ps.
        (pl_y p + pl_height p = current_y st \<and> pl_x p + pl_width p < current_x st \<and>
         pl_height p \<le> max_row_height st)
        \<or> current_y st < pl_y p)"

definition canvas_inv :: "canvas \<times> layout \<Rightarrow> bool" where
  "canvas_inv s \<longleftrightarrow>
     (\<forall>pg \<in> set (pages (fst s)). disjoint_list (page_placements pg)) \<and>
     page_inv (snd s) (page_placements (code (fst s)))"




text \<open>The same invariants for the rounded arithmetic, without the top margin.\<close>

definition cursor_inv_fl :: "(real \<Rightarrow> real) \<Rightarrow> real \<times> real \<Rightarrow> canvas \<times> layout \<Rightarrow> bool" where
  "cursor_inv_fl rnd page_size s \<longleftrightarrow>
     (case page_size of (page_width, page_height) \<Rightarrow>
        inch \<le> current_x (snd s) \<and>
        (\<forall>p \<in> set (placements (fst s)).
           inch \<le> pl_x p \<and>
           (4 * inch \<le> page_width \<longrightarrow>
              rnd (pl_x p + pl_width p) \<le> rnd (page_width - inch))))"

definition bottom_inv_fl :: "(real \<Rightarrow> real) \<Rightarrow> canvas \<times> layout \<Rightarrow> bool" where
  "bottom_inv_fl rnd s \<longleftrightarrow>
     inch \<le> rnd (current_y (snd s) - max_row_height (snd s)) \<and>
     0 \<le> max_row_height (snd s) \<and>
     (\<forall>p \<in> set (placements (fst s)). inch \<le> pl_y p)"

definition fits_fl :: "(real \<Rightarrow> real) \<Rightarrow> real \<Rightarrow> layout \<Rightarrow> real \<Rightarrow> bool" where
  "fits_fl rnd page_height st h \<longleftrightarrow>
     0 \<le> h \<and> h \<le> rnd (page_height - inch) - inch \<and>
     (current_y st = rnd (page_height - inch) \<or> h \<le> max_row_height st)"

text \<open>
  The size every placement is drawn with: two inches wide, the height scaled by the
  same factor, for the image that \<open>preprocess_image\<close> returns for the file.
\<close>

definition sized :: "filesystem \<Rightarrow> string \<Rightarrow> placement \<Rightarrow> bool" where
  "sized fs input_dir p \<longleftrightarrow>
     preprocess_image fs (os_path_join input_dir (pl_src p)) = Inr (pl_image p) \<and>
     width (pl_image p) \<noteq> 0 \<and>
     pl_width p = 2 * inch \<and>
     pl_height p = real (height (pl_image p)) * (2 * inch) / real (width (pl_image p))"

subsection \<open>The order the design document asks for\<close>

text \<open>
  The design document sorts the rectangles by height descending and breaks ties by width
  descending. This predicate states that order for a list of placements; it is not
  taken from the script.
\<close>

definition spec_height_descending :: "placement list \<Rightarrow> bool" where
  "spec_height_descending ps =
     sorted_wrt (\<lambda>p q. pl_height p > pl_height q \<or>
                        (pl_height p = pl_height q \<and> pl_width p \<ge> pl_width q)) ps"

subsection \<open>An example file system\<close>

text \<open>
  Directory \<^verbatim>\<open>in\<close>: a wide image, a tall image with a transparent border, a file
  that cannot be opened, a palette image with transparency and a text file. Directory
  \<^verbatim>\<open>wide\<close>: one image of 1440 by 720 pixels. Directory \<^verbatim>\<open>tall\<close>: one image
  of 1 by 10 pixels. Directory \<^verbatim>\<open>squares\<close>: five square images. Directory
  \<^verbatim>\<open>broken\<close>: an image with a transparent border, a file whose header is intact
  and whose pixel data is truncated, and a file that cannot be opened. Directory
  \<^verbatim>\<open>odd\<close>: one image of 144 by 145 pixels. Any other directory holds a text file
  only.
\<close>

definition demo_open :: "string \<Rightarrow> decoded option" where
  "demo_open p =
     (if p = ''in/a.PNG'' then
        Some \<lparr>mode = ''RGB'', width = 2, height = 1, info_transparency = False,
              alpha_bbox = None, pixels_ok = True\<rparr>
      else if p = ''in/b.png'' then
        Some \<lparr>mode = ''RGBA'', width = 4, height = 8, info_transparency = False,
              alpha_bbox = Some (1, 2, 3, 6), pixels_ok = True\<rparr>
      else if p = ''in/d.png'' then
        Some \<lparr>mode = ''P'', width = 4, height = 4, info_transparency = True,
              alpha_bbox = None, pixels_ok = True\<rparr>
      else if p = ''wide/w.png'' then
        Some \<lparr>mode = ''RGB'', width = 1440, height = 720, info_transparency = False,
              alpha_bbox = None, pixels_ok = True\<rparr>
      else if p = ''tall/t.png'' then
        Some \<lparr>mode = ''RGB'', width = 1, height = 10, info_transparency = False,
              alpha_bbox = None, pixels_ok = True\<rparr>
      else if take 8 p = ''squares/'' then
        Some \<lparr>mode = ''RGB'', width = 10, height = 10, info_transparency = False,
              alpha_bbox = None, pixels_ok = True\<rparr>
      else if p = ''broken/ok.png'' then
        Some \<lparr>mode = ''RGBA'', width = 6, height = 4, info_transparency = False,
              alpha_bbox = Some (1, 1, 4, 3), pixels_ok = True\<rparr>
      else if p = ''broken/trunc.png'' then
        Some \<lparr>mode = ''RGB'', width = 8, height = 8, info_transparency = False,
              alpha_bbox = None, pixels_ok = False\<rparr>
      else if p = ''odd/o.png'' then
        Some \<lparr>mode = ''RGB'', width = 144, height = 145, info_transparency = False,
              alpha_bbox = None, pixels_ok = True\<rparr>
      else None)"

definition demo_listdir :: "string \<Rightarrow> string list" where
  "demo_listdir d =
     (if d = ''in'' then [''b.png'', ''notes.txt'', ''a.PNG'', ''d.png'', ''c.jpg'']
      else if d = ''wide'' then [''w.png'']
      else if d = ''tall'' then [''t.png'']
      else if d = ''squares'' then [''s3.png'', ''s1.png'', ''s5.png'', ''s2.png'', ''s4.png'']
      else if d = ''broken'' then [''zzz.jpg'', ''trunc.png'', ''ok.png'']
      else if d = ''odd'' then [''o.png'']
      else [''notes.txt''])"

definition demo_fs :: filesystem where
  "demo_fs = \<lparr>listdir = demo_listdir, Image_open = demo_open\<rparr>"

text \<open>The same files, listed in the opposite order.\<close>

definition demo_fs_rev :: filesystem where
  "demo_fs_rev = \<lparr>listdir = (\<lambda>d. rev (demo_listdir d)), Image_open = demo_open\<rparr>"

text \<open>US Letter, 8.5 by 11 inches: the usable width is 6.5 inches.\<close>

definition letter :: "real \<times> real" where
  "letter = (8.5 * inch, 11 * inch)"

section \<open>Properties\<close>

subsection \<open>Reading placements off the canvas\<close>

lemma page_placements_append [simp]:
  "page_placements (xs @ ys) = page_placements xs @ page_placements ys"
  by (induction xs rule: page_placements.induct) simp_all

lemma placements_drawImage [simp]: "placements (drawImage c p) = placements c @ [p]"
  by (simp add: placements_def drawImage_def)

lemma placements_showPage [simp]: "placements (showPage c) = placements c"
  by (simp add: placements_def showPage_def)

lemma placements_save [simp]: "placements (save c) = placements c"
  by (simp add: save_def placements_def showPage_def)

lemma placements_Canvas [simp]: "placements (Canvas out ps) = []"
  by (simp add: placements_def Canvas_def)

lemma pages_save:
  "pages (save c) = (if code c \<noteq> [] then pages c @ [code c] else pages c)"
  by (simp add: save_def showPage_def)

lemma saved_save [simp]: "saved (save c)"
  by (simp add: save_def)

subsection \<open>One step of the loop\<close>

lemma place_eq:
  "place (pw, ph) f img tw th (c, st) =
     (if current_x st + tw > pw - inch then
        (if current_y st - (max_row_height st + 0.2 * inch) - th < inch then
           (drawImage (showPage c)
              \<lparr>pl_src = f, pl_image = img, pl_x = inch, pl_y = ph - inch - th,
               pl_width = tw, pl_height = th\<rparr>,
            \<lparr>current_x = inch + (tw + 0.2 * inch), current_y = ph - inch,
             max_row_height = max 0 th\<rparr>)
         else
           (drawImage c
              \<lparr>pl_src = f, pl_image = img, pl_x = inch,
               pl_y = current_y st - (max_row_height st + 0.2 * inch) - th,
               pl_width = tw, pl_height = th\<rparr>,
            \<lparr>current_x = inch + (tw + 0.2 * inch),
             current_y = current_y st - (max_row_height st + 0.2 * inch),
             max_row_height = max 0 th\<rparr>))
      else
        (drawImage c
           \<lparr>pl_src = f, pl_image = img, pl_x = current_x st, pl_y = current_y st - th,
            pl_width = tw, pl_height = th\<rparr>,
         st\<lparr>current_x := current_x st + (tw + 0.2 * inch),
            max_row_height := max (max_row_height st) th\<rparr>))"
  by (simp add: place_def Let_def)

lemma place_placements:
  "\<exists>p. placements (fst (place ps f img tw th s)) = placements (fst s) @ [p] \<and>
       pl_src p = f \<and> pl_image p = img \<and> pl_width p = tw \<and> pl_height p = th"
  by (cases s; cases ps) (auto simp: place_eq)

lemma try_block_Inr:
  assumes "try_block fs d ps f s = Inr s'"
  obtains img where "preprocess_image fs (os_path_join d f) = Inr img"
    and "width img \<noteq> 0"
    and "s' = place ps f img (2 * inch) (real (height img) * (2 * inch) / real (width img)) s"
  using assms by (auto simp: try_block_def Let_def split: sum.splits if_splits)

lemma try_block_drawn:
  "drawn fs d f \<longleftrightarrow> (\<exists>s'. try_block fs d ps f s = Inr s')"
  by (auto simp: drawn_def try_block_def Let_def split: sum.splits)

lemma process_image_skip:
  "\<not> drawn fs d f \<Longrightarrow> process_image fs d ps f s = s"
  by (auto simp: drawn_def process_image_def try_block_def Let_def split: sum.splits)

lemma process_image_place:
  assumes "drawn fs d f"
  obtains img where "preprocess_image fs (os_path_join d f) = Inr img"
    and "width img \<noteq> 0"
    and "process_image fs d ps f s =
           place ps f img (2 * inch) (real (height img) * (2 * inch) / real (width img)) s"
  using assms
  by (auto simp: drawn_def process_image_def try_block_def Let_def split: sum.splits)

subsection \<open>The example, evaluated\<close>

lemmas script_defs =
  generate_pdf_def Canvas_def process_image_def try_block_def preprocess_image_def
  os_path_join_def Image_new_def get_bounding_box_of_visible_area_def getchannel_def
  getbands_def crop_def convert_def place_def inch_def Let_def drawImage_def drawString_def
  showPage_def save_def letter_def

lemma demo_fs_sel:
  "Image_open demo_fs = demo_open" "listdir demo_fs = demo_listdir"
  "Image_open demo_fs_rev = demo_open" "listdir demo_fs_rev = (\<lambda>d. rev (demo_listdir d))"
  by (simp_all add: demo_fs_def demo_fs_rev_def)

lemma demo_files_in:
  "image_files demo_fs ''in'' = [''a.PNG'', ''b.png'', ''c.jpg'', ''d.png'']"
  by code_simp

lemma demo_files_in_rev:
  "image_files demo_fs_rev ''in'' = [''a.PNG'', ''b.png'', ''c.jpg'', ''d.png'']"
  by code_simp

lemma demo_files_wide: "image_files demo_fs ''wide'' = [''w.png'']"
  by code_simp



lemma demo_files_empty: "image_files demo_fs ''empty'' = []"
  by code_simp

lemma demo_in:
  "generate_pdf demo_fs ''in'' ''out.pdf'' letter =
     \<lparr>filename = ''out.pdf'', pagesize = (612, 792),
      pages =
        [[DrawImage
            \<lparr>pl_src = ''a.PNG'',
             pl_image = \<lparr>mode = ''RGB'', width = 2, height = 1, info_transparency = False\<rparr>,
             pl_x = 72, pl_y = 648, pl_width = 144, pl_height = 72\<rparr>,
          DrawImage
            \<lparr>pl_src = ''b.png'',
             pl_image = \<lparr>mode = ''RGBA'', width = 2, height = 4, info_transparency = False\<rparr>,
             pl_x = 1152 / 5, pl_y = 432, pl_width = 144, pl_height = 288\<rparr>,
          DrawImage
            \<lparr>pl_src = ''c.jpg'',
             pl_image = \<lparr>mode = ''RGB'', width = 1, height = 1, info_transparency = False\<rparr>,
             pl_x = 1944 / 5, pl_y = 576, pl_width = 144, pl_height = 144\<rparr>]],
      code = [], saved = True\<rparr>"
  by (simp add: script_defs demo_files_in demo_fs_sel demo_open_def)

lemma demo_wide:
  "generate_pdf demo_fs ''wide'' ''out.pdf'' letter =
     \<lparr>filename = ''out.pdf'', pagesize = (612, 792),
      pages =
        [[DrawImage
            \<lparr>pl_src = ''w.png'',
             pl_image = \<lparr>mode = ''RGB'', width = 1440, height = 720,
                         info_transparency = False\<rparr>,
             pl_x = 72, pl_y = 648, pl_width = 144, pl_height = 72\<rparr>]],
      code = [], saved = True\<rparr>"
  by (simp add: script_defs demo_files_wide demo_fs_sel demo_open_def)


lemma demo_empty:
  "generate_pdf demo_fs ''empty'' ''out.pdf'' letter =
     \<lparr>filename = ''out.pdf'', pagesize = (612, 792),
      pages = [[DrawString 72 720 ''No images found.'']],
      code = [], saved = True\<rparr>"
  by (simp add: script_defs demo_files_empty)

subsection \<open>No two placements of a page intersect\<close>

lemma disjoint_list_Nil [simp]: "disjoint_list []"
  by (simp add: disjoint_list_def)

lemma disjoint_list_single [simp]: "disjoint_list [q]"
  by (simp add: disjoint_list_def)

lemma disjoint_list_snoc:
  "disjoint_list (ps @ [q]) \<longleftrightarrow> disjoint_list ps \<and> (\<forall>p \<in> set ps. \<not> intersects p q)"
  by (simp add: disjoint_list_def sorted_wrt_append)

lemma intersects_sym: "intersects p q \<longleftrightarrow> intersects q p"
  by (auto simp: intersects_def)

lemma place_inv:
  assumes "canvas_inv (c, st)" and "0 \<le> tw"
  shows "canvas_inv (place (pw, ph) f img tw th (c, st))"
proof -
  have gap: "0 < 0.2 * inch" by (simp add: inch_def)
  show ?thesis
    using assms gap
    unfolding place_eq canvas_inv_def page_inv_def
    by (auto simp: drawImage_def showPage_def disjoint_list_snoc intersects_def)
qed

lemma process_image_inv:
  assumes "canvas_inv s"
  shows "canvas_inv (process_image fs d ps f s)"
proof (cases "drawn fs d f")
  case False
  then show ?thesis using assms by (simp add: process_image_skip)
next
  case True
  then obtain img where
    "process_image fs d ps f s =
       place ps f img (2 * inch) (real (height img) * (2 * inch) / real (width img)) s"
    by (rule process_image_place)
  then show ?thesis
    using assms by (cases s; cases ps) (simp add: place_inv inch_def)
qed

lemma layout_loop_inv:
  "canvas_inv s \<Longrightarrow> canvas_inv (layout_loop fs d ps files s)"
  by (induction files arbitrary: s) (simp_all add: process_image_inv)

lemma canvas_inv_save:
  assumes "canvas_inv (c, st)" and "pg \<in> set (pages (save c))"
  shows "disjoint_list (page_placements pg)"
  using assms by (auto simp: pages_save canvas_inv_def page_inv_def split: if_splits)

lemma generate_pdf_disjoint:
  assumes "pg \<in> set (pages (generate_pdf fs d out ps))"
  shows "disjoint_list (page_placements pg)"
proof (cases ps)
  case (Pair pw ph)
  let ?s0 = "(Canvas out ps, \<lparr>current_x = inch, current_y = ph - inch, max_row_height = 0\<rparr>)"
  show ?thesis
  proof (cases "image_files fs d = []")
    case True
    with assms Pair show ?thesis
      by (simp add: generate_pdf_def Canvas_def drawString_def pages_save)
  next
    case False
    have "canvas_inv ?s0"
      by (simp add: canvas_inv_def page_inv_def Canvas_def)
    then have "canvas_inv (layout_loop fs d ps (image_files fs d) ?s0)"
      by (rule layout_loop_inv)
    then have "canvas_inv (fst (layout_loop fs d ps (image_files fs d) ?s0),
                           snd (layout_loop fs d ps (image_files fs d) ?s0))"
      by simp
    moreover have "pg \<in> set (pages (save (fst (layout_loop fs d ps (image_files fs d) ?s0))))"
      using assms Pair False by (simp add: generate_pdf_def Let_def)
    ultimately show ?thesis by (rule canvas_inv_save)
  qed
qed

text \<open>
  Claim C2. On every page of the document, two placements at different positions of the
  page's drawing order never intersect, not even along an edge: placements of one row
  are separated by the horizontal gap, and rows by the vertical gap. This holds for
  every directory content and every page size.
\<close>

theorem no_overlap:
  assumes "pg \<in> set (pages (generate_pdf fs d out ps))"
    and "i < length (page_placements pg)" and "j < length (page_placements pg)"
    and "i \<noteq> j"
  shows "\<not> intersects (page_placements pg ! i) (page_placements pg ! j)"
proof -
  have srt: "sorted_wrt (\<lambda>p q. \<not> intersects p q) (page_placements pg)"
    using generate_pdf_disjoint [OF assms(1)] by (simp add: disjoint_list_def)
  from assms(4) consider "i < j" | "j < i" by linarith
  then show ?thesis
  proof cases
    case 1
    with srt assms(3) show ?thesis by (simp add: sorted_wrt_iff_nth_less)
  next
    case 2
    with srt assms(2) have "\<not> intersects (page_placements pg ! j) (page_placements pg ! i)"
      by (simp add: sorted_wrt_iff_nth_less)
    then show ?thesis by (simp add: intersects_sym)
  qed
qed

theorem no_overlap_witness:
  "hd (pages (generate_pdf demo_fs ''in'' ''out.pdf'' letter))
     \<in> set (pages (generate_pdf demo_fs ''in'' ''out.pdf'' letter)) \<and>
   0 < length (page_placements (hd (pages (generate_pdf demo_fs ''in'' ''out.pdf'' letter)))) \<and>
   2 < length (page_placements (hd (pages (generate_pdf demo_fs ''in'' ''out.pdf'' letter)))) \<and>
   (0::nat) \<noteq> 2 \<and>
   \<not> intersects
       (page_placements (hd (pages (generate_pdf demo_fs ''in'' ''out.pdf'' letter))) ! 0)
       (page_placements (hd (pages (generate_pdf demo_fs ''in'' ''out.pdf'' letter))) ! 2)"
  using no_overlap [of "hd (pages (generate_pdf demo_fs ''in'' ''out.pdf'' letter))"
      demo_fs "''in''" "''out.pdf''" letter 0 2]
  by (simp add: demo_in)

subsection \<open>Which files are drawn, and at which size\<close>

lemma placements_drawString [simp]: "placements (drawString c x0 y0 t) = placements c"
  by (simp add: placements_def drawString_def)

lemma process_image_srcs:
  "map pl_src (placements (fst (process_image fs d ps f s))) =
     map pl_src (placements (fst s)) @ (if drawn fs d f then [f] else [])"
proof (cases "drawn fs d f")
  case False
  then show ?thesis by (simp add: process_image_skip)
next
  case True
  then obtain img where
    eq: "process_image fs d ps f s =
       place ps f img (2 * inch) (real (height img) * (2 * inch) / real (width img)) s"
    by (rule process_image_place)
  from place_placements [of ps f img "2 * inch"
      "real (height img) * (2 * inch) / real (width img)" s]
  obtain p where "placements (fst (process_image fs d ps f s)) = placements (fst s) @ [p]"
    and "pl_src p = f"
    unfolding eq by blast
  with True show ?thesis by simp
qed

lemma layout_loop_srcs:
  "map pl_src (placements (fst (layout_loop fs d ps files s))) =
     map pl_src (placements (fst s)) @ filter (drawn fs d) files"
  by (induction files arbitrary: s) (simp_all add: process_image_srcs)

lemma generate_pdf_srcs:
  "map pl_src (placements (generate_pdf fs d out ps)) =
     filter (drawn fs d) (image_files fs d)"
  by (cases ps) (simp add: generate_pdf_def Let_def layout_loop_srcs)

lemma process_image_sized:
  assumes "\<forall>p \<in> set (placements (fst s)). sized fs d p"
  shows "\<forall>p \<in> set (placements (fst (process_image fs d ps f s))). sized fs d p"
proof (cases "drawn fs d f")
  case False
  then show ?thesis using assms by (simp add: process_image_skip)
next
  case True
  then obtain img where pre: "preprocess_image fs (os_path_join d f) = Inr img"
    and w: "width img \<noteq> 0"
    and eq: "process_image fs d ps f s =
       place ps f img (2 * inch) (real (height img) * (2 * inch) / real (width img)) s"
    by (rule process_image_place)
  from place_placements [of ps f img "2 * inch"
      "real (height img) * (2 * inch) / real (width img)" s]
  obtain p where "placements (fst (process_image fs d ps f s)) = placements (fst s) @ [p]"
    and "pl_src p = f" and "pl_image p = img" and "pl_width p = 2 * inch"
    and "pl_height p = real (height img) * (2 * inch) / real (width img)"
    unfolding eq by blast
  with assms pre w show ?thesis by (auto simp: sized_def)
qed

lemma layout_loop_sized:
  "\<forall>p \<in> set (placements (fst s)). sized fs d p \<Longrightarrow>
   \<forall>p \<in> set (placements (fst (layout_loop fs d ps files s))). sized fs d p"
proof (induction files arbitrary: s)
  case Nil
  then show ?case by simp
next
  case (Cons f files)
  from Cons.prems
  have "\<forall>p \<in> set (placements (fst (process_image fs d ps f s))). sized fs d p"
    by (rule process_image_sized)
  then have "\<forall>p \<in> set (placements
      (fst (layout_loop fs d ps files (process_image fs d ps f s)))). sized fs d p"
    by (rule Cons.IH)
  then show ?case by simp
qed

lemma generate_pdf_sized:
  assumes "p \<in> set (placements (generate_pdf fs d out ps))"
  shows "sized fs d p"
proof (cases ps)
  case (Pair pw ph)
  show ?thesis
  proof (cases "image_files fs d = []")
    case True
    with assms Pair show ?thesis by (simp add: generate_pdf_def)
  next
    case False
    let ?s0 = "(Canvas out ps, \<lparr>current_x = inch, current_y = ph - inch, max_row_height = 0\<rparr>)"
    have "\<forall>p \<in> set (placements (fst ?s0)). sized fs d p" by simp
    then have "\<forall>p \<in> set (placements (fst (layout_loop fs d ps (image_files fs d) ?s0))).
                 sized fs d p"
      by (rule layout_loop_sized)
    with assms Pair False show ?thesis by (simp add: generate_pdf_def Let_def)
  qed
qed

lemma sized_scaled_height: "sized fs d p \<Longrightarrow> pl_height p = scaled_height fs d (pl_src p)"
  by (simp add: sized_def scaled_height_def)

lemma sorted_image_files: "sorted (image_files fs d)"
  by (simp add: image_files_def)

subsection \<open>Processing order\<close>

text \<open>
  Claim C1, as amended. The script does not sort by height. It processes the image files
  of the directory in ascending order of their names (compared character by character),
  whatever their sizes, and this is the order in which placements are decided: the
  sources of the placements, in drawing order, are the sorted image file names, without
  the files whose processing raised an exception.
\<close>

theorem processing_order_by_name:
  "map pl_src (placements (generate_pdf fs d out ps)) =
     filter (drawn fs d)
       (sort (filter (\<lambda>f. endswith_any (lower f) [''.png'', ''.jpg'', ''.jpeg''])
                (listdir fs d))) \<and>
   sorted (map pl_src (placements (generate_pdf fs d out ps)))"
proof
  show "map pl_src (placements (generate_pdf fs d out ps)) =
     filter (drawn fs d)
       (sort (filter (\<lambda>f. endswith_any (lower f) [''.png'', ''.jpg'', ''.jpeg''])
                (listdir fs d)))"
    using generate_pdf_srcs [of fs d out ps] by (simp add: image_files_def)
  have "sorted (filter (drawn fs d) (image_files fs d))"
    using sorted_image_files [of fs d] by (rule sorted_wrt_filter)
  then show "sorted (map pl_src (placements (generate_pdf fs d out ps)))"
    by (simp add: generate_pdf_srcs)
qed

theorem processing_order_by_name_witness:
  "map pl_src (placements (generate_pdf demo_fs ''in'' ''out.pdf'' letter)) =
     [''a.PNG'', ''b.png'', ''c.jpg''] \<and>
   map pl_height (placements (generate_pdf demo_fs ''in'' ''out.pdf'' letter)) =
     [72, 288, 144] \<and>
   sorted (map pl_src (placements (generate_pdf demo_fs ''in'' ''out.pdf'' letter)))"
proof -
  have pl: "map pl_src (placements (generate_pdf demo_fs ''in'' ''out.pdf'' letter)) =
      [''a.PNG'', ''b.png'', ''c.jpg'']"
    by (simp add: demo_in placements_def)
  have "sorted (map pl_src (placements (generate_pdf demo_fs ''in'' ''out.pdf'' letter)))"
    using processing_order_by_name [of demo_fs "''in''" "''out.pdf''" letter]
    by (rule conjunct2)
  then show ?thesis
    by (simp add: pl) (simp add: demo_in placements_def)
qed

text \<open>
  The claim as stated fails: in the example the placements are decided in the order
  \<^verbatim>\<open>a.PNG\<close>, \<^verbatim>\<open>b.png\<close>, \<^verbatim>\<open>c.jpg\<close> with heights 72, 288 and 144, which is
  not descending.
\<close>

theorem height_order_counterexample:
  "\<not> spec_height_descending (placements (generate_pdf demo_fs ''in'' ''out.pdf'' letter))"
  by (simp add: demo_in placements_def spec_height_descending_def)

subsection \<open>Sizes of placements\<close>

text \<open>
  Claim C6, as amended. Nothing is ever clamped and no clamped flag exists: the size a
  file is drawn with is fixed by its image alone, two inches wide and the height scaled
  by the same factor. It does not depend on the page size, so an image wider than the
  usable width of the page is not fitted to that width. On a page with a usable width of
  6.5 inches, an image of 1440 by 720 pixels (20 by 10 inches at 72 per inch) is drawn
  2 inches wide and 1 inch tall.
\<close>

theorem fixed_size_no_clamp:
  "map (\<lambda>p. (pl_src p, pl_width p, pl_height p)) (placements (generate_pdf fs d out ps)) =
     map (\<lambda>f. (f, 2 * inch, scaled_height fs d f)) (filter (drawn fs d) (image_files fs d))"
proof -
  have "map (\<lambda>p. (pl_src p, pl_width p, pl_height p)) (placements (generate_pdf fs d out ps)) =
        map (\<lambda>p. (pl_src p, 2 * inch, scaled_height fs d (pl_src p)))
          (placements (generate_pdf fs d out ps))"
  proof (rule map_cong [OF refl])
    fix p assume "p \<in> set (placements (generate_pdf fs d out ps))"
    then have "sized fs d p" by (rule generate_pdf_sized)
    then show "(pl_src p, pl_width p, pl_height p) =
               (pl_src p, 2 * inch, scaled_height fs d (pl_src p))"
      by (simp add: sized_scaled_height) (simp add: sized_def)
  qed
  also have "\<dots> = map (\<lambda>f. (f, 2 * inch, scaled_height fs d f))
                    (map pl_src (placements (generate_pdf fs d out ps)))"
    by (simp add: comp_def)
  finally show ?thesis by (simp add: generate_pdf_srcs)
qed

theorem fixed_size_no_clamp_witness:
  "map (\<lambda>p. (pl_src p, pl_width p, pl_height p))
     (placements (generate_pdf demo_fs ''wide'' ''out.pdf'' letter)) =
   [(''w.png'', 2 * inch, 1 * inch)] \<and>
   map (\<lambda>f. (f, 2 * inch, scaled_height demo_fs ''wide'' f))
     (filter (drawn demo_fs ''wide'') (image_files demo_fs ''wide'')) =
   [(''w.png'', 2 * inch, 1 * inch)] \<and>
   fst letter - 2 * inch = 6.5 * inch"
proof -
  have pl: "map (\<lambda>p. (pl_src p, pl_width p, pl_height p))
      (placements (generate_pdf demo_fs ''wide'' ''out.pdf'' letter)) =
      [(''w.png'', 2 * inch, 1 * inch)]"
    by (simp add: demo_wide placements_def inch_def)
  with fixed_size_no_clamp [of demo_fs "''wide''" "''out.pdf''" letter]
  have "map (\<lambda>f. (f, 2 * inch, scaled_height demo_fs ''wide'' f))
     (filter (drawn demo_fs ''wide'') (image_files demo_fs ''wide'')) =
     [(''w.png'', 2 * inch, 1 * inch)]"
    by simp
  with pl show ?thesis by (simp add: letter_def inch_def)
qed

text \<open>
  The claim as stated fails: the image of 20 by 10 inches is wider than the usable width
  of 6.5 inches, and it is not drawn 6.5 inches wide and 3.25 inches tall.
\<close>

theorem clamp_counterexample:
  "real (width (pl_image (hd (placements (generate_pdf demo_fs ''wide'' ''out.pdf'' letter)))))
     > fst letter - 2 * inch \<and>
   \<not> list_all (\<lambda>p. pl_width p = 6.5 * inch \<and> pl_height p = 3.25 * inch)
       (placements (generate_pdf demo_fs ''wide'' ''out.pdf'' letter))"
  unfolding demo_wide placements_def by (simp add: letter_def inch_def)

text \<open>
  Claim C7, as amended. The sizing step makes the width, not the larger dimension, equal
  to the cap of two inches, and scales the height by the same factor. The larger of the
  two drawn dimensions equals the cap exactly when the image is at least as wide as it
  is tall.
\<close>

theorem width_equals_cap:
  assumes "p \<in> set (placements (generate_pdf fs d out ps))"
  shows "pl_width p = 2 * inch \<and>
         pl_height p * real (width (pl_image p)) = real (height (pl_image p)) * pl_width p \<and>
         (max (pl_width p) (pl_height p) = 2 * inch
            \<longleftrightarrow> height (pl_image p) \<le> width (pl_image p))"
proof -
  from assms have sz: "sized fs d p" by (rule generate_pdf_sized)
  then have w: "0 < real (width (pl_image p))" and pw: "pl_width p = 2 * inch"
    and ph: "pl_height p = real (height (pl_image p)) * (2 * inch) / real (width (pl_image p))"
    by (simp_all add: sized_def)
  have "pl_height p \<le> 2 * inch \<longleftrightarrow> real (height (pl_image p)) \<le> real (width (pl_image p))"
    using w by (simp add: ph inch_def field_simps)
  then have "max (pl_width p) (pl_height p) = 2 * inch
               \<longleftrightarrow> height (pl_image p) \<le> width (pl_image p)"
    by (auto simp: pw max_def)
  moreover have "pl_height p * real (width (pl_image p)) =
                 real (height (pl_image p)) * pl_width p"
    using w by (simp add: ph pw)
  ultimately show ?thesis using pw by simp
qed

theorem width_equals_cap_witness:
  "hd (placements (generate_pdf demo_fs ''in'' ''out.pdf'' letter))
     \<in> set (placements (generate_pdf demo_fs ''in'' ''out.pdf'' letter)) \<and>
   pl_width (hd (placements (generate_pdf demo_fs ''in'' ''out.pdf'' letter))) = 2 * inch \<and>
   max (pl_width (hd (placements (generate_pdf demo_fs ''in'' ''out.pdf'' letter))))
       (pl_height (hd (placements (generate_pdf demo_fs ''in'' ''out.pdf'' letter))))
     = 2 * inch \<and>
   pl_height (hd (placements (generate_pdf demo_fs ''in'' ''out.pdf'' letter))) = inch"
proof -
  have mem: "hd (placements (generate_pdf demo_fs ''in'' ''out.pdf'' letter))
     \<in> set (placements (generate_pdf demo_fs ''in'' ''out.pdf'' letter))"
    by (simp add: demo_in placements_def)
  from width_equals_cap [OF mem] mem show ?thesis
    by (simp add: demo_in placements_def inch_def)
qed

text \<open>
  The claim as stated fails: the second image of the example is taller than wide; it is
  drawn 2 inches wide and 4 inches tall, so its larger dimension is not the cap.
\<close>

theorem larger_dimension_counterexample:
  "\<not> list_all (\<lambda>p. max (pl_width p) (pl_height p) = 2 * inch)
       (placements (generate_pdf demo_fs ''in'' ''out.pdf'' letter))"
  by (simp add: demo_in placements_def inch_def)

text \<open>
  Claim C8. No placement is clamped, and every placement whose image has a positive
  height keeps the aspect ratio of that image: the drawn width over the drawn height
  differs from the image's width over its height by less than one millionth (in exact
  arithmetic the two are equal). The image is the one \<open>preprocess_image\<close> returned
  for the placement's file.
\<close>

theorem aspect_preserved:
  assumes "p \<in> set (placements (generate_pdf fs d out ps))"
    and "0 < height (pl_image p)"
  shows "preprocess_image fs (os_path_join d (pl_src p)) = Inr (pl_image p) \<and>
         0 < pl_height p \<and>
         \<bar>pl_width p / pl_height p - real (width (pl_image p)) / real (height (pl_image p))\<bar>
           < 1 / 10 ^ 6"
proof -
  from assms(1) have sz: "sized fs d p" by (rule generate_pdf_sized)
  then have w: "0 < real (width (pl_image p))" and pw: "pl_width p = 2 * inch"
    and ph: "pl_height p = real (height (pl_image p)) * (2 * inch) / real (width (pl_image p))"
    and pre: "preprocess_image fs (os_path_join d (pl_src p)) = Inr (pl_image p)"
    by (simp_all add: sized_def)
  have h: "0 < real (height (pl_image p))" using assms(2) by simp
  have pos: "0 < pl_height p" using w h by (simp add: ph inch_def)
  have "pl_width p / pl_height p = real (width (pl_image p)) / real (height (pl_image p))"
    using w h by (simp add: pw ph inch_def)
  with pre pos show ?thesis by simp
qed

theorem aspect_preserved_witness:
  "placements (generate_pdf demo_fs ''in'' ''out.pdf'' letter) ! 1
     \<in> set (placements (generate_pdf demo_fs ''in'' ''out.pdf'' letter)) \<and>
   0 < height (pl_image (placements (generate_pdf demo_fs ''in'' ''out.pdf'' letter) ! 1)) \<and>
   \<bar>pl_width (placements (generate_pdf demo_fs ''in'' ''out.pdf'' letter) ! 1) /
     pl_height (placements (generate_pdf demo_fs ''in'' ''out.pdf'' letter) ! 1) -
     real (width (pl_image (placements (generate_pdf demo_fs ''in'' ''out.pdf'' letter) ! 1))) /
     real (height (pl_image (placements (generate_pdf demo_fs ''in'' ''out.pdf'' letter) ! 1)))\<bar>
     < 1 / 10 ^ 6"
proof -
  have mem: "placements (generate_pdf demo_fs ''in'' ''out.pdf'' letter) ! 1
     \<in> set (placements (generate_pdf demo_fs ''in'' ''out.pdf'' letter))"
    by (simp add: demo_in placements_def)
  have h: "0 < height (pl_image (placements (generate_pdf demo_fs ''in'' ''out.pdf'' letter) ! 1))"
    by (simp add: demo_in placements_def)
  from aspect_preserved [OF mem h] mem h show ?thesis by simp
qed

text \<open>
  The tolerance of that claim covers the rounding of floating point numbers. If the height
  the script computes differs from the exact quotient by a relative error of at most
  \<open>2\<^sup>-\<^sup>5\<^sup>2\<close> (two roundings of IEEE doubles), the drawn aspect ratio still differs from
  the image's by less than one millionth, for every image at most \<open>10\<^sup>9\<close> times as
  wide as it is tall.
\<close>

lemma aspect_within_tolerance_rounded:
  fixes w h :: nat and delta :: real
  assumes "0 < w" and "0 < h" and "\<bar>delta\<bar> \<le> 1 / 2 ^ 52" and "real w / real h \<le> 10 ^ 9"
  shows "\<bar>2 * inch / (real h * (2 * inch) / real w * (1 + delta)) - real w / real h\<bar>
           < 1 / 10 ^ 6"
proof -
  define r where "r = real w / real h"
  have r: "0 < r" "r \<le> 10 ^ 9" using assms by (simp_all add: r_def)
  have d: "1 - 1 / 2 ^ 52 \<le> 1 + delta" using assms(3) by (simp add: abs_le_iff)
  then have pos: "0 < 1 + delta" by simp
  have "2 * inch / (real h * (2 * inch) / real w * (1 + delta)) = r / (1 + delta)"
    using assms(1,2) by (simp add: r_def inch_def)
  moreover have "\<bar>r / (1 + delta) - r\<bar> = r * \<bar>delta\<bar> / (1 + delta)"
  proof -
    have "r / (1 + delta) - r = - (r * delta / (1 + delta))"
      using pos by (simp add: field_simps)
    then show ?thesis using r(1) pos by (simp add: abs_mult)
  qed
  moreover have "r * \<bar>delta\<bar> / (1 + delta) \<le> 10 ^ 9 * (1 / 2 ^ 52) / (1 - 1 / 2 ^ 52)"
  proof (rule frac_le)
    show "r * \<bar>delta\<bar> \<le> 10 ^ 9 * (1 / 2 ^ 52)"
      using r assms(3) by (intro mult_mono) simp_all
    show "0 \<le> 10 ^ 9 * (1 / 2 ^ 52 :: real)" by simp
    show "0 < (1 - 1 / 2 ^ 52 :: real)" by simp
    show "1 - 1 / 2 ^ 52 \<le> 1 + delta" by (rule d)
  qed
  moreover have "10 ^ 9 * (1 / 2 ^ 52) / (1 - 1 / 2 ^ 52) < (1 / 10 ^ 6 :: real)"
    by simp
  ultimately show ?thesis unfolding r_def by linarith
qed

subsection \<open>Failures to open or decode an image\<close>

lemma preprocess_image_open_fails:
  "Image_open fs path = None \<Longrightarrow> preprocess_image fs path = Inr (Image_new ''RGB'' (1, 1))"
  by (simp add: preprocess_image_def)

lemma drawn_open_fails: "Image_open fs (os_path_join d f) = None \<Longrightarrow> drawn fs d f"
  by (simp add: drawn_def preprocess_image_open_fails Image_new_def)

lemma saved_generate_pdf: "saved (generate_pdf fs d out ps)"
  by (cases ps) (simp add: generate_pdf_def Let_def)

lemma drawn_is_placed:
  assumes "g \<in> set (image_files fs d)" and "drawn fs d g"
  shows "g \<in> pl_src ` set (placements (generate_pdf fs d out ps))"
proof -
  from assms have "g \<in> set (filter (drawn fs d) (image_files fs d))" by simp
  then have "g \<in> set (map pl_src (placements (generate_pdf fs d out ps)))"
    by (simp only: generate_pdf_srcs)
  then show ?thesis by simp
qed

lemma demo_files_broken:
  "image_files demo_fs ''broken'' = [''ok.png'', ''trunc.png'', ''zzz.jpg'']"
  by code_simp

lemma demo_broken:
  "generate_pdf demo_fs ''broken'' ''out.pdf'' letter =
     \<lparr>filename = ''out.pdf'', pagesize = (612, 792),
      pages =
        [[DrawImage
            \<lparr>pl_src = ''ok.png'',
             pl_image = \<lparr>mode = ''RGBA'', width = 3, height = 2, info_transparency = False\<rparr>,
             pl_x = 72, pl_y = 624, pl_width = 144, pl_height = 96\<rparr>,
          DrawImage
            \<lparr>pl_src = ''zzz.jpg'',
             pl_image = \<lparr>mode = ''RGB'', width = 1, height = 1, info_transparency = False\<rparr>,
             pl_x = 1152 / 5, pl_y = 576, pl_width = 144, pl_height = 144\<rparr>]],
      code = [], saved = True\<rparr>"
  by (simp add: script_defs demo_files_broken demo_fs_sel demo_open_def)

lemma preprocess_image_truncated:
  assumes "Image_open fs path = Some im" and "\<not> pixels_ok im"
  shows "preprocess_image fs path = Inl OSError"
  using assms
  by (simp add: preprocess_image_def get_bounding_box_of_visible_area_def getchannel_def
        crop_def split: option.splits)

lemma not_drawn_raises:
  "preprocess_image fs (os_path_join d g) = Inl e \<Longrightarrow> \<not> drawn fs d g"
  by (simp add: drawn_def)

lemma not_drawn_not_placed:
  assumes "\<not> drawn fs d g"
  shows "g \<notin> pl_src ` set (placements (generate_pdf fs d out ps))"
proof -
  have "pl_src ` set (placements (generate_pdf fs d out ps)) =
        set (filter (drawn fs d) (image_files fs d))"
    by (metis generate_pdf_srcs set_map)
  with assms show ?thesis by simp
qed

lemma preprocess_image_visible:
  assumes "Image_open fs path = Some im" and "wf_decoded im" and "pixels_ok im"
    and "\<not> (mode im = ''P'' \<and> info_transparency im)"
  shows "\<exists>img. preprocess_image fs path = Inr img \<and>
           (width img, height img) = visible_size im \<and> width img \<noteq> 0"
  using assms
  by (auto simp: preprocess_image_def get_bounding_box_of_visible_area_def getchannel_def
        getbands_def crop_def convert_def wf_decoded_def visible_size_def
        split: option.splits)

text \<open>
  Claim C5, as amended. No failure of one image aborts the batch, and the document is
  always saved. When \<^verbatim>\<open>Image.open\<close> fails for an image file, a 1 by 1 placeholder
  takes its place and is drawn, 2 inches wide and 2 inches tall. When the file opens and
  its pixel data cannot be decoded, the exception comes from outside the handler of
  \<open>preprocess_image\<close>: the file is skipped and nothing is drawn for it, no placeholder
  either. Every image file that opens and decodes as PIL guarantees, and is not a palette
  image with transparency, is drawn 2 inches wide with the size of its visible area.
\<close>

theorem failures_absorbed:
  assumes "g \<in> set (image_files fs d)"
  shows "saved (generate_pdf fs d out ps) \<and>
    (Image_open fs (os_path_join d g) = None \<longrightarrow>
       (\<exists>p \<in> set (placements (generate_pdf fs d out ps)).
          pl_src p = g \<and> pl_image p = Image_new ''RGB'' (1, 1) \<and>
          pl_width p = 2 * inch \<and> pl_height p = 2 * inch)) \<and>
    (\<forall>im. Image_open fs (os_path_join d g) = Some im \<and> \<not> pixels_ok im \<longrightarrow>
       preprocess_image fs (os_path_join d g) = Inl OSError \<and>
       g \<notin> pl_src ` set (placements (generate_pdf fs d out ps))) \<and>
    (\<forall>im. Image_open fs (os_path_join d g) = Some im \<and> pixels_ok im \<and> wf_decoded im \<and>
          \<not> (mode im = ''P'' \<and> info_transparency im) \<longrightarrow>
       (\<exists>p \<in> set (placements (generate_pdf fs d out ps)).
          pl_src p = g \<and> (width (pl_image p), height (pl_image p)) = visible_size im \<and>
          pl_width p = 2 * inch))"
proof (intro conjI impI allI)
  show "saved (generate_pdf fs d out ps)" by (rule saved_generate_pdf)
next
  assume fails: "Image_open fs (os_path_join d g) = None"
  have pre: "preprocess_image fs (os_path_join d g) = Inr (Image_new ''RGB'' (1, 1))"
    using fails by (rule preprocess_image_open_fails)
  have "g \<in> pl_src ` set (placements (generate_pdf fs d out ps))"
    using assms drawn_open_fails [OF fails] by (rule drawn_is_placed)
  then obtain p where p: "p \<in> set (placements (generate_pdf fs d out ps))"
    and src: "pl_src p = g"
    by auto
  from p have sz: "sized fs d p" by (rule generate_pdf_sized)
  with pre src have img: "pl_image p = Image_new ''RGB'' (1, 1)"
    by (simp add: sized_def)
  from sz have "pl_width p = 2 * inch" and "pl_height p = 2 * inch"
    by (simp_all add: sized_def img Image_new_def)
  with p src img
  show "\<exists>p \<in> set (placements (generate_pdf fs d out ps)).
          pl_src p = g \<and> pl_image p = Image_new ''RGB'' (1, 1) \<and>
          pl_width p = 2 * inch \<and> pl_height p = 2 * inch"
    by blast
next
  fix im
  assume "Image_open fs (os_path_join d g) = Some im \<and> \<not> pixels_ok im"
  then show raises: "preprocess_image fs (os_path_join d g) = Inl OSError"
    by (simp add: preprocess_image_truncated)
  then have "\<not> drawn fs d g" by (rule not_drawn_raises)
  then show "g \<notin> pl_src ` set (placements (generate_pdf fs d out ps))"
    by (rule not_drawn_not_placed)
next
  fix im
  assume a: "Image_open fs (os_path_join d g) = Some im \<and> pixels_ok im \<and> wf_decoded im \<and>
          \<not> (mode im = ''P'' \<and> info_transparency im)"
  then obtain img where pre: "preprocess_image fs (os_path_join d g) = Inr img"
    and vis: "(width img, height img) = visible_size im" and w: "width img \<noteq> 0"
    using preprocess_image_visible [of fs "os_path_join d g" im] by blast
  from pre w have "drawn fs d g" by (simp add: drawn_def)
  with assms have "g \<in> pl_src ` set (placements (generate_pdf fs d out ps))"
    by (rule drawn_is_placed)
  then obtain p where p: "p \<in> set (placements (generate_pdf fs d out ps))"
    and src: "pl_src p = g"
    by auto
  from p have sz: "sized fs d p" by (rule generate_pdf_sized)
  with pre src have "pl_image p = img" and "pl_width p = 2 * inch"
    by (simp_all add: sized_def)
  with p src vis
  show "\<exists>p \<in> set (placements (generate_pdf fs d out ps)).
          pl_src p = g \<and> (width (pl_image p), height (pl_image p)) = visible_size im \<and>
          pl_width p = 2 * inch"
    by blast
qed

theorem failures_absorbed_witness:
  "''zzz.jpg'' \<in> set (image_files demo_fs ''broken'') \<and>
   Image_open demo_fs (os_path_join ''broken'' ''zzz.jpg'') = None \<and>
   list_ex (\<lambda>p. pl_src p = ''zzz.jpg'' \<and> pl_image p = Image_new ''RGB'' (1, 1) \<and>
                pl_width p = 2 * inch \<and> pl_height p = 2 * inch)
     (placements (generate_pdf demo_fs ''broken'' ''out.pdf'' letter)) \<and>
   ''trunc.png'' \<in> set (image_files demo_fs ''broken'') \<and>
   \<not> pixels_ok (the (Image_open demo_fs (os_path_join ''broken'' ''trunc.png''))) \<and>
   ''trunc.png'' \<notin> pl_src ` set (placements (generate_pdf demo_fs ''broken'' ''out.pdf'' letter)) \<and>
   ''ok.png'' \<in> set (image_files demo_fs ''broken'') \<and>
   visible_size (the (Image_open demo_fs (os_path_join ''broken'' ''ok.png''))) = (3, 2) \<and>
   list_ex (\<lambda>p. pl_src p = ''ok.png'' \<and> (width (pl_image p), height (pl_image p)) = (3, 2) \<and>
                pl_width p = 2 * inch)
     (placements (generate_pdf demo_fs ''broken'' ''out.pdf'' letter)) \<and>
   saved (generate_pdf demo_fs ''broken'' ''out.pdf'' letter)"
proof -
  let ?G = "generate_pdf demo_fs ''broken'' ''out.pdf'' letter"
  let ?ok = "\<lparr>mode = ''RGBA'', width = 6, height = 4, info_transparency = False,
              alpha_bbox = Some (1, 1, 4, 3), pixels_ok = True\<rparr>"
  let ?trunc = "\<lparr>mode = ''RGB'', width = 8, height = 8, info_transparency = False,
              alpha_bbox = None, pixels_ok = False\<rparr>"
  have m1: "''zzz.jpg'' \<in> set (image_files demo_fs ''broken'')"
    and m2: "''trunc.png'' \<in> set (image_files demo_fs ''broken'')"
    and m3: "''ok.png'' \<in> set (image_files demo_fs ''broken'')"
    by (simp_all add: demo_files_broken)
  have o1: "Image_open demo_fs (os_path_join ''broken'' ''zzz.jpg'') = None"
    and o2: "Image_open demo_fs (os_path_join ''broken'' ''trunc.png'') = Some ?trunc"
    and o3: "Image_open demo_fs (os_path_join ''broken'' ''ok.png'') = Some ?ok"
    by (simp_all add: demo_fs_sel demo_open_def os_path_join_def)
  have vis: "visible_size ?ok = (3, 2)" and wf: "wf_decoded ?ok"
    by (simp_all add: visible_size_def wf_decoded_def)
  from failures_absorbed [OF m1, of "''out.pdf''" letter] o1
  have "\<exists>p \<in> set (placements ?G).
          pl_src p = ''zzz.jpg'' \<and> pl_image p = Image_new ''RGB'' (1, 1) \<and>
          pl_width p = 2 * inch \<and> pl_height p = 2 * inch"
    by blast
  then have c1: "list_ex (\<lambda>p. pl_src p = ''zzz.jpg'' \<and> pl_image p = Image_new ''RGB'' (1, 1) \<and>
                pl_width p = 2 * inch \<and> pl_height p = 2 * inch) (placements ?G)"
    by (simp only: list_ex_iff)
  have t: "\<not> pixels_ok ?trunc" by simp
  from failures_absorbed [OF m2, of "''out.pdf''" letter] o2 t
  have c2: "''trunc.png'' \<notin> pl_src ` set (placements ?G)"
    by blast
  have k: "pixels_ok ?ok" and np: "\<not> (mode ?ok = ''P'' \<and> info_transparency ?ok)"
    by simp_all
  from failures_absorbed [OF m3, of "''out.pdf''" letter] o3 k wf np
  have "\<exists>p \<in> set (placements ?G).
          pl_src p = ''ok.png'' \<and> (width (pl_image p), height (pl_image p)) = visible_size ?ok \<and>
          pl_width p = 2 * inch"
    by blast
  then have c3: "list_ex (\<lambda>p. pl_src p = ''ok.png'' \<and>
      (width (pl_image p), height (pl_image p)) = (3, 2) \<and> pl_width p = 2 * inch)
      (placements ?G)"
    by (simp only: list_ex_iff vis)
  from failures_absorbed [OF m1, of "''out.pdf''" letter] have sv: "saved ?G"
    by (rule conjunct1)
  have t': "\<not> pixels_ok (the (Image_open demo_fs (os_path_join ''broken'' ''trunc.png'')))"
    by (simp add: o2)
  have vis': "visible_size (the (Image_open demo_fs (os_path_join ''broken'' ''ok.png''))) = (3, 2)"
    by (simp only: o3 option.sel vis)
  show ?thesis by (intro conjI m1 o1 c1 m2 t' c2 m3 vis' c3 sv)
qed

text \<open>
  The claim as stated fails: the file \<^verbatim>\<open>trunc.png\<close> of the directory
  \<^verbatim>\<open>broken\<close> opens, its pixel data cannot be decoded, and no placeholder takes
  its place: \<open>preprocess_image\<close> raises OSError and the document has no placement for
  the file, while the other two files are drawn.
\<close>

theorem truncated_no_placeholder:
  "''trunc.png'' \<in> set (image_files demo_fs ''broken'') \<and>
   Image_open demo_fs (os_path_join ''broken'' ''trunc.png'') =
     Some \<lparr>mode = ''RGB'', width = 8, height = 8, info_transparency = False,
           alpha_bbox = None, pixels_ok = False\<rparr> \<and>
   preprocess_image demo_fs (os_path_join ''broken'' ''trunc.png'') = Inl OSError \<and>
   map pl_src (placements (generate_pdf demo_fs ''broken'' ''out.pdf'' letter)) =
     [''ok.png'', ''zzz.jpg''] \<and>
   \<not> list_ex (\<lambda>p. pl_src p = ''trunc.png'')
       (placements (generate_pdf demo_fs ''broken'' ''out.pdf'' letter))"
  unfolding demo_broken demo_files_broken placements_def
  by (simp add: preprocess_image_def demo_fs_sel demo_open_def os_path_join_def
        get_bounding_box_of_visible_area_def crop_def)

subsection \<open>Empty input\<close>

text \<open>
  Claim C9. When the directory holds no image file, the document has no placement and
  exactly one page, which carries the text "No images found.", and it is saved.
\<close>

theorem empty_input_one_page:
  assumes "image_files fs d = []"
  shows "placements (generate_pdf fs d out (pw, ph)) = [] \<and>
         page_count (generate_pdf fs d out (pw, ph)) = 1 \<and>
         pages (generate_pdf fs d out (pw, ph)) =
           [[DrawString inch (ph - inch) ''No images found.'']] \<and>
         saved (generate_pdf fs d out (pw, ph))"
  using assms
  by (simp add: generate_pdf_def page_count_def pages_save drawString_def Canvas_def
        placements_def save_def showPage_def)

theorem empty_input_one_page_witness:
  "image_files demo_fs ''empty'' = [] \<and>
   placements (generate_pdf demo_fs ''empty'' ''out.pdf'' (612, 792)) = [] \<and>
   page_count (generate_pdf demo_fs ''empty'' ''out.pdf'' (612, 792)) = 1 \<and>
   saved (generate_pdf demo_fs ''empty'' ''out.pdf'' (612, 792))"
  using empty_input_one_page [OF demo_files_empty, of "''out.pdf''" 612 792] demo_files_empty
  by simp

subsection \<open>Determinism\<close>

lemma preprocess_image_cong:
  assumes "Image_open fs1 = Image_open fs2"
  shows "preprocess_image fs1 path = preprocess_image fs2 path"
  by (simp add: preprocess_image_def assms)

lemma process_image_cong:
  assumes "Image_open fs1 = Image_open fs2"
  shows "process_image fs1 d ps f s = process_image fs2 d ps f s"
  by (simp add: process_image_def try_block_def preprocess_image_cong [OF assms])

lemma layout_loop_cong:
  assumes "Image_open fs1 = Image_open fs2"
  shows "layout_loop fs1 d ps files s = layout_loop fs2 d ps files s"
  by (induction files arbitrary: s) (simp_all add: process_image_cong [OF assms])

lemma image_files_same_set:
  assumes "set (listdir fs1 d) = set (listdir fs2 d)"
    and "distinct (listdir fs1 d)" and "distinct (listdir fs2 d)"
  shows "image_files fs1 d = image_files fs2 d"
  unfolding image_files_def
  by (rule sorted_distinct_set_unique) (simp_all add: assms)

text \<open>
  Claim C4. The result is a function of the input, and it does not depend on the order
  in which the operating system lists the directory: two runs on directories that hold
  the same set of file names with the same contents, with the same output path and page
  size, leave identical documents (the same placements in the same order, the same
  coordinates, the same pages).
\<close>

theorem deterministic:
  assumes "set (listdir fs1 d) = set (listdir fs2 d)"
    and "distinct (listdir fs1 d)" and "distinct (listdir fs2 d)"
    and "Image_open fs1 = Image_open fs2"
  shows "generate_pdf fs1 d out ps = generate_pdf fs2 d out ps"
proof -
  have "image_files fs1 d = image_files fs2 d"
    using assms(1-3) by (rule image_files_same_set)
  then show ?thesis
    by (cases ps) (simp add: generate_pdf_def Let_def layout_loop_cong [OF assms(4)])
qed

theorem deterministic_witness:
  "set (listdir demo_fs ''in'') = set (listdir demo_fs_rev ''in'') \<and>
   distinct (listdir demo_fs ''in'') \<and> distinct (listdir demo_fs_rev ''in'') \<and>
   listdir demo_fs ''in'' \<noteq> listdir demo_fs_rev ''in'' \<and>
   Image_open demo_fs = Image_open demo_fs_rev \<and>
   generate_pdf demo_fs ''in'' ''out.pdf'' letter =
     generate_pdf demo_fs_rev ''in'' ''out.pdf'' letter"
proof -
  have 1: "set (listdir demo_fs ''in'') = set (listdir demo_fs_rev ''in'')"
    by (simp add: demo_fs_sel)
  have 2: "distinct (listdir demo_fs ''in'')"
    by (simp add: demo_fs_sel demo_listdir_def)
  have 3: "distinct (listdir demo_fs_rev ''in'')"
    by (simp add: demo_fs_sel demo_listdir_def)
  have 4: "Image_open demo_fs = Image_open demo_fs_rev"
    by (simp add: demo_fs_sel)
  have 5: "listdir demo_fs ''in'' \<noteq> listdir demo_fs_rev ''in''"
    by (simp add: demo_fs_sel demo_listdir_def)
  note 6 = deterministic [OF 1 2 3 4, of "''out.pdf''" letter]
  show ?thesis by (intro conjI 1 2 3 4 5 6)
qed

subsection \<open>Palette images with transparency\<close>

text \<open>
  Claim C10 fails on the script. For an image in palette mode whose info has the key
  \<^verbatim>\<open>'transparency'\<close>, \<open>get_bounding_box_of_visible_area\<close> asks for the band A,
  which a palette image does not have: \<^verbatim>\<open>getchannel\<close> raises ValueError,
  \<open>preprocess_image\<close> does not catch it and returns no image. The loop of
  \<open>generate_pdf\<close> catches the exception and skips the file. In the example, the file
  \<^verbatim>\<open>d.png\<close> is such an image.
\<close>

theorem palette_transparency_raises:
  "Image_open demo_fs (os_path_join ''in'' ''d.png'') =
     Some \<lparr>mode = ''P'', width = 4, height = 4, info_transparency = True,
           alpha_bbox = None, pixels_ok = True\<rparr> \<and>
   preprocess_image demo_fs (os_path_join ''in'' ''d.png'') = Inl ValueError \<and>
   ''d.png'' \<in> set (image_files demo_fs ''in'') \<and>
   ''d.png'' \<notin> pl_src ` set (placements (generate_pdf demo_fs ''in'' ''out.pdf'' letter))"
  unfolding demo_in demo_files_in placements_def
  by (simp add: preprocess_image_def demo_fs_sel demo_open_def os_path_join_def
        get_bounding_box_of_visible_area_def getchannel_def getbands_def)

text \<open>
  For every other image whose pixel data can be decoded the claim holds: when the
  opened image is as PIL guarantees and is not a palette image with transparency,
  \<open>preprocess_image\<close> returns an image of positive width and height. With the
  placeholder of a failed \<^verbatim>\<open>Image.open\<close>, every image it returns has positive size,
  so the division by the width in the loop never divides by zero.
\<close>

lemma preprocess_image_returns:
  assumes "Image_open fs path = Some im" and "wf_decoded im" and "pixels_ok im"
    and "\<not> (mode im = ''P'' \<and> info_transparency im)"
  shows "\<exists>img. preprocess_image fs path = Inr img \<and> 1 \<le> width img \<and> 1 \<le> height img"
  using assms
  by (auto simp: preprocess_image_def get_bounding_box_of_visible_area_def getchannel_def
        getbands_def crop_def convert_def wf_decoded_def
        split: option.splits)

lemma preprocess_image_positive:
  assumes "preprocess_image fs path = Inr img"
    and "\<And>im. Image_open fs path = Some im \<Longrightarrow> wf_decoded im"
  shows "1 \<le> width img \<and> 1 \<le> height img"
proof (cases "Image_open fs path")
  case None
  with assms(1) show ?thesis by (auto simp: preprocess_image_def Image_new_def)
next
  case (Some im)
  then have "wf_decoded im" by (rule assms(2))
  with Some assms(1) show ?thesis
    by (auto simp: preprocess_image_def get_bounding_box_of_visible_area_def getchannel_def
          getbands_def crop_def convert_def wf_decoded_def
          split: option.splits if_splits sum.splits)
qed

lemma preprocess_image_raises_iff:
  assumes "Image_open fs path = Some im" and "wf_decoded im"
  shows "(\<exists>e. preprocess_image fs path = Inl e) \<longleftrightarrow>
         \<not> pixels_ok im \<or> (mode im = ''P'' \<and> info_transparency im)"
  using assms
  by (auto simp: preprocess_image_def get_bounding_box_of_visible_area_def getchannel_def
        getbands_def crop_def convert_def wf_decoded_def
        split: option.splits)

subsection \<open>Margins\<close>

















text \<open>The configured page, A4 in portrait, is wide and tall enough for one image.\<close>

lemma PAGE_SIZE_bounds: "4 * inch \<le> fst PAGE_SIZE \<and> 2 * inch \<le> snd PAGE_SIZE"
  by (simp add: PAGE_SIZE_def portrait_def A4_def mm_def cm_def inch_def)

end
